theory Spec2Isabelle
  imports Main "HOL-Library.Word"
begin

section \<open>Podcast-Maker: the audio assembly of \<open>app.py\<close>\<close>

text \<open>
  The development embeds three functions of \<open>src/app.py\<close>:
  \<open>parse_audio_mime_type\<close> (lines 67-99), \<open>convert_to_wav\<close> (lines 28-65) and the
  streaming part of \<open>generate_podcast_audio\<close> (lines 101-191).

  Conventions of the embedding.
  \<^item> A Python \<open>str\<close> is a \<open>string\<close>; a \<open>char\<close> stands for the code point of the same
    number, so the model covers the strings whose code points are below 256. The
    built-ins \<open>str.strip\<close>, \<open>str.lower\<close> and \<open>int\<close> are modelled on that range.
  \<^item> A Python \<open>bytes\<close> object is a list of 8-bit words.
  \<^item> A Python \<open>int\<close> is an \<open>int\<close>.
  \<^item> Every \<open>raise\<close> is a value \<open>Inl e\<close> of the result type \<open>error + 'a\<close>.
  \<^item> \<open>int\<close> is modelled without the interpreter's configurable limit on the number of
    digits of a decimal string (\<open>sys.set_int_max_str_digits\<close>).
\<close>

type_synonym byte = "8 word"

datatype error = ValueError | IndexError | StructError | APIError nat

subsection \<open>Built-ins of Python used by the source\<close>

text \<open>\<open>str.isspace\<close> on one character: the white space that \<open>str.strip()\<close> removes.\<close>

definition py_isspace :: "char \<Rightarrow> bool" where
  "py_isspace c = ((of_char c :: nat) \<in> {9, 10, 11, 12, 13, 28, 29, 30, 31, 32, 133, 160})"

text \<open>\<open>s.strip()\<close>: white space removed at both ends.\<close>

definition py_strip :: "string \<Rightarrow> string" where
  "py_strip s = rev (dropWhile py_isspace (rev (dropWhile py_isspace s)))"

text \<open>\<open>s.lower()\<close>: on code points below 256 the letters A-Z and the capital letters
  192-222 (215, the multiplication sign, apart) move up by 32.\<close>

definition lower_char :: "char \<Rightarrow> char" where
  "lower_char c =
     (let n = (of_char c :: nat)
      in if (65 \<le> n \<and> n \<le> 90) \<or> (192 \<le> n \<and> n \<le> 222 \<and> n \<noteq> 215)
         then char_of (n + 32) else c)"

definition py_lower :: "string \<Rightarrow> string" where
  "py_lower s = map lower_char s"

text \<open>\<open>s.startswith(p)\<close>.\<close>

definition py_startswith :: "string \<Rightarrow> string \<Rightarrow> bool" where
  "py_startswith s p = (take (length p) s = p)"

text \<open>\<open>s.split(sep)\<close> for a separator of one character: never the empty list.\<close>

fun py_split :: "char \<Rightarrow> string \<Rightarrow> string list" where
  "py_split sep [] = [[]]"
| "py_split sep (c # cs) =
     (if c = sep then [] # py_split sep cs
      else (case py_split sep cs of
              [] \<Rightarrow> [[c]]
            | t # ts \<Rightarrow> (c # t) # ts))"

text \<open>\<open>s.split(sep, 1)\<close>: at most one cut, at the first separator.\<close>

definition py_split1 :: "char \<Rightarrow> string \<Rightarrow> string list" where
  "py_split1 sep s =
     (case dropWhile (\<lambda>c. c \<noteq> sep) s of
        [] \<Rightarrow> [s]
      | _ # rest \<Rightarrow> [takeWhile (\<lambda>c. c \<noteq> sep) s, rest])"

text \<open>\<open>xs[i]\<close> for a non-negative index: \<open>IndexError\<close> out of range.\<close>

definition py_index :: "'a list \<Rightarrow> nat \<Rightarrow> error + 'a" where
  "py_index xs i = (if i < length xs then Inr (xs ! i) else Inl IndexError)"

text \<open>
  \<open>int(s)\<close> in base 10. The string is: optional white space, an optional sign, decimal
  digits in which single underscores may separate digits, optional white space. Anything
  else raises \<open>ValueError\<close>. The white space of \<open>int\<close> is narrower than that of
  \<open>str.strip\<close>: the separators 28-31 are not accepted.
\<close>

definition int_space :: "char \<Rightarrow> bool" where
  "int_space c = ((of_char c :: nat) \<in> {9, 10, 11, 12, 13, 32, 133, 160})"

definition is_digit :: "char \<Rightarrow> bool" where
  "is_digit c = (48 \<le> (of_char c :: nat) \<and> (of_char c :: nat) \<le> 57)"

definition digit_val :: "char \<Rightarrow> int" where
  "digit_val c = int (of_char c) - 48"

fun double_underscore :: "string \<Rightarrow> bool" where
  "double_underscore (a # b # cs) =
     ((a = CHR ''_'' \<and> b = CHR ''_'') \<or> double_underscore (b # cs))"
| "double_underscore _ = False"

definition digits_value :: "string \<Rightarrow> int" where
  "digits_value ds = foldl (\<lambda>acc c. acc * 10 + digit_val c) 0 (filter is_digit ds)"

definition py_int :: "string \<Rightarrow> error + int" where
  "py_int s =
     (let s1 = dropWhile int_space s;
          neg = (case s1 of c # _ \<Rightarrow> c = CHR ''-'' | [] \<Rightarrow> False);
          s2 = (case s1 of c # cs \<Rightarrow> if c = CHR ''+'' \<or> c = CHR ''-'' then cs else s1
                | [] \<Rightarrow> []);
          body = takeWhile (\<lambda>c. is_digit c \<or> c = CHR ''_'') s2;
          rest = dropWhile (\<lambda>c. is_digit c \<or> c = CHR ''_'') s2
      in if body = [] \<or> hd body = CHR ''_'' \<or> last body = CHR ''_''
            \<or> double_underscore body \<or> \<not> list_all int_space rest
         then Inl ValueError
         else Inr (if neg then - digits_value body else digits_value body))"




text \<open>
  \<open>struct.pack\<close> with the byte order \<open><\<close>: an unsigned field of \<open>k\<close> bytes holds
  \<open>0 \<le> v < 256 ^ k\<close>, least significant byte first; any other value raises
  \<open>struct.error\<close>. The code \<open>I\<close> has 4 bytes and \<open>H\<close> has 2. A \<open>4s\<close> field holds
  the four bytes given.
\<close>

fun le_bytes :: "nat \<Rightarrow> int \<Rightarrow> byte list" where
  "le_bytes 0 v = []"
| "le_bytes (Suc k) v = word_of_int (v mod 256) # le_bytes k (v div 256)"

definition pack_uint :: "nat \<Rightarrow> int \<Rightarrow> error + byte list" where
  "pack_uint k v = (if 0 \<le> v \<and> v < 256 ^ k then Inr (le_bytes k v) else Inl StructError)"

definition pack_I :: "int \<Rightarrow> error + byte list" where
  "pack_I v = pack_uint 4 v"

definition pack_H :: "int \<Rightarrow> error + byte list" where
  "pack_H v = pack_uint 2 v"

definition tag :: "string \<Rightarrow> byte list" where
  "tag s = map (\<lambda>c. of_nat (of_char c)) s"

text \<open>Sequencing of packed fields: the first failure is the result.\<close>

fun pack_all :: "(error + byte list) list \<Rightarrow> error + byte list" where
  "pack_all [] = Inr []"
| "pack_all (f # fs) =
     (case f of
        Inl e \<Rightarrow> Inl e
      | Inr bs \<Rightarrow> (case pack_all fs of Inl e \<Rightarrow> Inl e | Inr rest \<Rightarrow> Inr (bs @ rest)))"

subsection \<open>\<open>parse_audio_mime_type\<close>\<close>

record parameters =
  bits_per_sample :: int
  rate :: int

text \<open>The body of the loop over the tokens (lines 85-97), on the pair of variables
  \<open>bits_per_sample\<close> and \<open>rate\<close>. Each \<open>try\<close> block is a computation that may raise;
  its \<open>except (ValueError, IndexError)\<close> clause keeps the variables and lets any other
  error through.\<close>

definition try_rate :: "string \<Rightarrow> error + int" where
  "try_rate param =
     (case py_index (py_split1 CHR ''='' param) 1 of
        Inl e \<Rightarrow> Inl e
      | Inr rate_str \<Rightarrow> py_int rate_str)"

definition try_bits :: "string \<Rightarrow> error + int" where
  "try_bits param =
     (case py_index (py_split1 CHR ''L'' param) 1 of
        Inl e \<Rightarrow> Inl e
      | Inr suffix \<Rightarrow> py_int suffix)"

definition caught :: "error \<Rightarrow> bool" where
  "caught e = (e = ValueError \<or> e = IndexError)"

definition parse_param :: "parameters \<Rightarrow> string \<Rightarrow> error + parameters" where
  "parse_param st raw =
     (let param = py_strip raw
      in if py_startswith (py_lower param) ''rate='' then
           (case try_rate param of
              Inr r \<Rightarrow> Inr (st\<lparr>rate := r\<rparr>)
            | Inl e \<Rightarrow> if caught e then Inr st else Inl e)
         else if py_startswith param ''audio/L'' then
           (case try_bits param of
              Inr b \<Rightarrow> Inr (st\<lparr>bits_per_sample := b\<rparr>)
            | Inl e \<Rightarrow> if caught e then Inr st else Inl e)
         else Inr st)"

fun parse_params :: "parameters \<Rightarrow> string list \<Rightarrow> error + parameters" where
  "parse_params st [] = Inr st"
| "parse_params st (p # ps) =
     (case parse_param st p of
        Inl e \<Rightarrow> Inl e
      | Inr st' \<Rightarrow> parse_params st' ps)"

definition parse_audio_mime_type :: "string \<Rightarrow> error + parameters" where
  "parse_audio_mime_type mime_type =
     parse_params \<lparr>bits_per_sample = 16, rate = 24000\<rparr> (py_split CHR '';'' mime_type)"

subsection \<open>\<open>convert_to_wav\<close>\<close>

text \<open>Lines 39-65 of \<open>convert_to_wav\<close>: the header and the payload, from the dictionary
  that line 38 obtained from the parser.\<close>

definition wav_encode :: "byte list \<Rightarrow> parameters \<Rightarrow> error + byte list" where
  "wav_encode audio_data ps =
     (let sample_rate = rate ps;
          num_channels = 1;
          data_size = int (length audio_data);
          bytes_per_sample = bits_per_sample ps div 8;
          block_align = num_channels * bytes_per_sample;
          byte_rate = sample_rate * block_align;
          chunk_size = 36 + data_size
      in case pack_all
           [Inr (tag ''RIFF''), pack_I chunk_size, Inr (tag ''WAVE''), Inr (tag ''fmt ''),
            pack_I 16, pack_H 1, pack_H num_channels, pack_I sample_rate,
            pack_I byte_rate, pack_H block_align, pack_H (bits_per_sample ps),
            Inr (tag ''data''), pack_I data_size]
         of Inl e \<Rightarrow> Inl e
          | Inr header \<Rightarrow> Inr (header @ audio_data))"

definition convert_to_wav :: "byte list \<Rightarrow> string \<Rightarrow> error + byte list" where
  "convert_to_wav audio_data mime_type =
     (case parse_audio_mime_type mime_type of
        Inl e \<Rightarrow> Inl e
      | Inr ps \<Rightarrow> wav_encode audio_data ps)"

subsection \<open>The stream of \<open>generate_podcast_audio\<close>\<close>

text \<open>
  The objects of a streamed response, with the fields the source reads. An attribute that
  may be \<open>None\<close> is an \<open>option\<close>. The media type of a blob is a \<open>str\<close>.
\<close>

record Blob =
  data :: "byte list option"
  mime_type :: string

record Part =
  inline_data :: "Blob option"

record Content =
  parts :: "Part list option"

record Candidate =
  content :: "Content option"

record GenerateContentResponse =
  candidates :: "Candidate list option"

text \<open>
  The body of the \<open>for\<close> loop (lines 160-179) on the accumulator \<open>audio_data\<close>.
  \<open>mimetypes.guess_extension\<close> reads the type tables of the host, so it is a parameter.
  \<open>continue\<close> and a false second condition both leave the accumulator as it is; an
  object is true unless it is \<open>None\<close>, and a \<open>bytes\<close> value is true unless it is
  \<open>None\<close> or empty. Indexing an empty list raises \<open>IndexError\<close>.
\<close>

definition process_chunk ::
  "(string \<Rightarrow> string option) \<Rightarrow> byte list \<Rightarrow> GenerateContentResponse \<Rightarrow> error + byte list"
where
  "process_chunk guess_extension audio_data chunk =
     (case candidates chunk of
        None \<Rightarrow> Inr audio_data
      | Some cands \<Rightarrow>
     (case py_index cands 0 of
        Inl e \<Rightarrow> Inl e
      | Inr cand \<Rightarrow>
     (case content cand of
        None \<Rightarrow> Inr audio_data
      | Some ct \<Rightarrow>
     (case parts ct of
        None \<Rightarrow> Inr audio_data
      | Some ps \<Rightarrow>
     (case py_index ps 0 of
        Inl e \<Rightarrow> Inl e
      | Inr p \<Rightarrow>
     (case inline_data p of
        None \<Rightarrow> Inr audio_data
      | Some blob \<Rightarrow>
     (case data blob of
        None \<Rightarrow> Inr audio_data
      | Some d \<Rightarrow>
          if d = [] then Inr audio_data
          else (case guess_extension (mime_type blob) of
                  None \<Rightarrow>
                    (case convert_to_wav d (mime_type blob) of
                       Inl e \<Rightarrow> Inl e
                     | Inr data_buffer \<Rightarrow> Inr (audio_data @ data_buffer))
                | Some file_extension \<Rightarrow> Inr (audio_data @ d)))))))))"

text \<open>
  The \<open>for\<close> loop (lines 155-179). The stream is the list of what the generator does at
  each step: it yields a chunk (\<open>Inr\<close>) or raises (\<open>Inl\<close>), which ends the iteration.
\<close>

fun assemble ::
  "(string \<Rightarrow> string option) \<Rightarrow> byte list \<Rightarrow> (error + GenerateContentResponse) list
     \<Rightarrow> error + byte list"
where
  "assemble guess_extension audio_data [] = Inr audio_data"
| "assemble guess_extension audio_data (Inl e # rest) = Inl e"
| "assemble guess_extension audio_data (Inr chunk # rest) =
     (case process_chunk guess_extension audio_data chunk of
        Inl e \<Rightarrow> Inl e
      | Inr audio_data' \<Rightarrow> assemble guess_extension audio_data' rest)"

text \<open>
  \<open>generate_podcast_audio\<close> (lines 101-191) on a file system, a map from file names to
  contents. \<open>api_key\<close> is the value of the environment variable, \<open>temp_file\<close> the name
  that \<open>NamedTemporaryFile\<close> chose, \<open>stream\<close> what the generation service sends for
  the script. The result is the returned file name or the raised error, with the file
  system left behind. Every value of \<open>error\<close> stands for a subclass of \<open>Exception\<close>,
  which the \<open>except\<close> clause of line 187 catches; failures of the file operations
  themselves are outside the model.
\<close>

type_synonym files = "string \<rightharpoonup> byte list"

definition generate_podcast_audio ::
  "(string \<Rightarrow> string option) \<Rightarrow> string option \<Rightarrow> string
     \<Rightarrow> (error + GenerateContentResponse) list \<Rightarrow> files \<Rightarrow> (error + string) \<times> files"
where
  "generate_podcast_audio guess_extension api_key temp_file stream fs =
     (if api_key = None \<or> api_key = Some [] then (Inl ValueError, fs)
      else
        (let fs1 = fs(temp_file \<mapsto> [])
         in case assemble guess_extension [] stream of
              Inr audio_data \<Rightarrow> (Inr temp_file, fs1(temp_file \<mapsto> audio_data))
            | Inl e \<Rightarrow>
                (Inl e, if temp_file \<in> dom fs1 then fs1(temp_file := None) else fs1)))"

subsection \<open>Vocabulary of the properties\<close>

text \<open>Reading an unsigned little-endian field back from bytes.\<close>

fun le_decode :: "byte list \<Rightarrow> nat" where
  "le_decode [] = 0"
| "le_decode (b # bs) = unat b + 256 * le_decode bs"

definition field :: "nat \<Rightarrow> nat \<Rightarrow> byte list \<Rightarrow> byte list" where
  "field offset n bs = take n (drop offset bs)"

text \<open>Every value of the header lies in the range of the field that holds it: 32 bits
  for the two sizes, the sample rate and the byte rate, 16 bits for the block alignment and
  the bits per sample.\<close>

definition fits_header :: "byte list \<Rightarrow> parameters \<Rightarrow> bool" where
  "fits_header audio_data ps =
     (36 + int (length audio_data) < 2 ^ 32
      \<and> 0 \<le> rate ps \<and> rate ps < 2 ^ 32
      \<and> 0 \<le> rate ps * (bits_per_sample ps div 8) \<and> rate ps * (bits_per_sample ps div 8) < 2 ^ 32
      \<and> 0 \<le> bits_per_sample ps div 8 \<and> bits_per_sample ps div 8 < 2 ^ 16
      \<and> 0 \<le> bits_per_sample ps \<and> bits_per_sample ps < 2 ^ 16)"

text \<open>The tokens of a descriptor that the parser reads as a rate or as a bit depth, and
  the text it hands to \<open>int\<close>.\<close>

definition rate_token :: "string \<Rightarrow> bool" where
  "rate_token t = py_startswith (py_lower (py_strip t)) ''rate=''"

definition rate_value :: "string \<Rightarrow> string" where
  "rate_value t = drop 5 (py_strip t)"

definition bits_token :: "string \<Rightarrow> bool" where
  "bits_token t = (\<not> rate_token t \<and> py_startswith (py_strip t) ''audio/L'')"

definition bits_value :: "string \<Rightarrow> string" where
  "bits_value t = drop 7 (py_strip t)"

text \<open>A chunk whose first candidate's first part carries the payload \<open>P\<close> under the media
  type \<open>m\<close>, and a chunk that the loop passes over: one of the three attributes is
  \<open>None\<close>, or the first part has no inline data, or its data is \<open>None\<close> or empty. A
  chunk with an empty list of candidates or of parts is not passed over: indexing it
  raises \<open>IndexError\<close>.\<close>

definition first_part :: "GenerateContentResponse \<Rightarrow> Part option" where
  "first_part chunk =
     (case candidates chunk of
        Some (cand # _) \<Rightarrow>
          (case content cand of
             Some ct \<Rightarrow> (case parts ct of Some (p # _) \<Rightarrow> Some p | _ \<Rightarrow> None)
           | None \<Rightarrow> None)
      | _ \<Rightarrow> None)"

definition no_audio :: "Part \<Rightarrow> bool" where
  "no_audio p =
     (case inline_data p of
        None \<Rightarrow> True
      | Some blob \<Rightarrow> data blob = None \<or> data blob = Some [])"

definition carries :: "GenerateContentResponse \<Rightarrow> string \<Rightarrow> byte list \<Rightarrow> bool" where
  "carries chunk m P =
     (case first_part chunk of
        Some p \<Rightarrow> inline_data p = Some \<lparr>data = Some P, mime_type = m\<rparr>
      | None \<Rightarrow> False)"


definition chunk_of :: "Part list \<Rightarrow> GenerateContentResponse" where
  "chunk_of ps = \<lparr>candidates = Some [\<lparr>content = Some \<lparr>parts = Some ps\<rparr>\<rparr>]\<rparr>"

definition audio_part :: "string \<Rightarrow> byte list \<Rightarrow> Part" where
  "audio_part m P = \<lparr>inline_data = Some \<lparr>data = Some P, mime_type = m\<rparr>\<rparr>"

text \<open>The 44 bytes that the format string lays out, for a payload of \<open>n\<close> bytes.\<close>

definition wav_header :: "nat \<Rightarrow> parameters \<Rightarrow> byte list" where
  "wav_header n ps =
     tag ''RIFF'' @ le_bytes 4 (36 + int n) @ tag ''WAVE'' @ tag ''fmt '' @ le_bytes 4 16
     @ le_bytes 2 1 @ le_bytes 2 1 @ le_bytes 4 (rate ps)
     @ le_bytes 4 (rate ps * (bits_per_sample ps div 8)) @ le_bytes 2 (bits_per_sample ps div 8)
     @ le_bytes 2 (bits_per_sample ps) @ tag ''data'' @ le_bytes 4 (int n)"

section \<open>Auxiliary facts\<close>

subsection \<open>Packing and the header\<close>

lemma length_le_bytes [simp]: "length (le_bytes k v) = k"
  by (induction k arbitrary: v) auto

lemma unat_byte_of_int: "unat (word_of_int (v mod 256) :: byte) = nat (v mod 256)"
  by (simp add: unat_eq_nat_uint uint_word_of_int)

lemma le_decode_le_bytes: "0 \<le> v \<Longrightarrow> v < 256 ^ k \<Longrightarrow> int (le_decode (le_bytes k v)) = v"
proof (induction k arbitrary: v)
  case 0
  then show ?case by simp
next
  case (Suc k)
  have "0 \<le> v div 256" using Suc.prems by simp
  moreover have "v div 256 < 256 ^ k" using Suc.prems by (simp add: div_less_iff_less_mult mult.commute) 
  ultimately have "int (le_decode (le_bytes k (v div 256))) = v div 256" by (rule Suc.IH)
  then show ?case using Suc.prems by (simp add: unat_byte_of_int)
qed

lemma wav_encode_fits:
  "fits_header a ps \<Longrightarrow> wav_encode a ps = Inr (wav_header (length a) ps @ a)"
  by (simp add: wav_encode_def fits_header_def pack_I_def pack_H_def pack_uint_def wav_header_def Let_def)

lemma wav_encode_not_fits:
  "\<not> fits_header a ps \<Longrightarrow> wav_encode a ps = Inl StructError"
  by (auto simp add: wav_encode_def fits_header_def pack_I_def pack_H_def pack_uint_def Let_def)

lemma length_wav_header: "length (wav_header n ps) = 44"
  by (simp add: wav_header_def tag_def)

lemma field_data_size: "field 40 4 (wav_header n ps @ a) = le_bytes 4 (int n)"
  by (simp add: field_def wav_header_def tag_def)

lemma field_chunk_size: "field 4 4 (wav_header n ps @ a) = le_bytes 4 (36 + int n)"
  by (simp add: field_def wav_header_def tag_def)

lemma wav_encode_fields:
  assumes "fits_header a ps"
  shows "wav_encode a ps = Inr (wav_header (length a) ps @ a)"
    and "le_decode (field 40 4 (wav_header (length a) ps @ a)) = length a"
    and "le_decode (field 4 4 (wav_header (length a) ps @ a)) = 36 + length a"
proof -
  show "wav_encode a ps = Inr (wav_header (length a) ps @ a)"
    using assms by (rule wav_encode_fits)
  have small: "36 + int (length a) < 256 ^ 4" using assms by (simp add: fits_header_def)
  have "int (le_decode (le_bytes 4 (int (length a)))) = int (length a)"
    using small by (intro le_decode_le_bytes) simp_all
  then show "le_decode (field 40 4 (wav_header (length a) ps @ a)) = length a"
    by (simp only: field_data_size of_nat_eq_iff)
  have "int (le_decode (le_bytes 4 (36 + int (length a)))) = 36 + int (length a)"
    using small by (intro le_decode_le_bytes) simp_all
  then have "int (le_decode (le_bytes 4 (36 + int (length a)))) = int (36 + length a)"
    by simp
  then show "le_decode (field 4 4 (wav_header (length a) ps @ a)) = 36 + length a"
    by (simp only: field_chunk_size of_nat_eq_iff)
qed

subsection \<open>One chunk, and the loop\<close>


lemma first_part_SomeD:
  assumes "first_part c = Some p"
  obtains cand cs ct ps where "candidates c = Some (cand # cs)" "content cand = Some ct"
    "parts ct = Some (p # ps)"
  using assms unfolding first_part_def
  by (auto split: option.splits list.splits)

lemma process_chunk_first_part:
  assumes "first_part c = Some p"
  shows "process_chunk ge acc c = (case inline_data p of None \<Rightarrow> Inr acc
      | Some blob \<Rightarrow> (case data blob of None \<Rightarrow> Inr acc
         | Some d \<Rightarrow> if d = [] then Inr acc
            else (case ge (mime_type blob) of
                  None \<Rightarrow> (case convert_to_wav d (mime_type blob) of Inl e \<Rightarrow> Inl e
                     | Inr w \<Rightarrow> Inr (acc @ w))
                | Some ext \<Rightarrow> Inr (acc @ d))))"
proof -
  from assms obtain cand cs ct ps where "candidates c = Some (cand # cs)"
    "content cand = Some ct" "parts ct = Some (p # ps)"
    by (rule first_part_SomeD)
  then show ?thesis by (simp add: process_chunk_def py_index_def)
qed

lemma process_chunk_carries:
  assumes "carries c m P" "P \<noteq> []" "ge m = None"
  shows "process_chunk ge acc c =
    (case convert_to_wav P m of Inl e \<Rightarrow> Inl e | Inr w \<Rightarrow> Inr (acc @ w))"
proof -
  from assms(1) obtain p where p: "first_part c = Some p"
    "inline_data p = Some \<lparr>data = Some P, mime_type = m\<rparr>"
    by (auto simp: carries_def split: option.splits)
  show ?thesis using assms(2,3) p(2) by (simp add: process_chunk_first_part [OF p(1)])
qed

lemma assemble_append:
  "assemble ge a (map Inr cs) = Inr acc \<Longrightarrow> assemble ge a (map Inr cs @ xs) = assemble ge acc xs"
  by (induction cs arbitrary: a) (auto split: sum.splits)

subsection \<open>The tokens of a descriptor\<close>

lemma py_index_error: "py_index xs i = Inl e \<Longrightarrow> e = IndexError"
  by (simp add: py_index_def split: if_splits)

lemma py_int_error: "py_int s = Inl e \<Longrightarrow> e = ValueError"
  by (simp add: py_int_def Let_def split: if_splits)

lemma try_rate_error: "try_rate p = Inl e \<Longrightarrow> caught e"
  by (auto simp: try_rate_def caught_def split: sum.splits dest: py_index_error py_int_error)

lemma try_bits_error: "try_bits p = Inl e \<Longrightarrow> caught e"
  by (auto simp: try_bits_def caught_def split: sum.splits dest: py_index_error py_int_error)

lemma lower_char_sep: "lower_char c = CHR ''='' \<Longrightarrow> c = CHR ''=''"
proof (rule ccontr)
  assume l: "lower_char c = CHR ''=''" and n: "c \<noteq> CHR ''=''"
  then have up: "(65 \<le> (of_char c :: nat) \<and> (of_char c :: nat) \<le> 90)
      \<or> (192 \<le> (of_char c :: nat) \<and> (of_char c :: nat) \<le> 222 \<and> (of_char c :: nat) \<noteq> 215)"
    and eq: "(char_of ((of_char c :: nat) + 32) :: char) = CHR ''=''"
    by (auto simp: lower_char_def Let_def split: if_splits)
  from eq have "(of_char (char_of ((of_char c :: nat) + 32) :: char) :: nat) = of_char CHR ''=''"
    by simp
  then have "((of_char c :: nat) + 32) mod 256 = 61" by simp
  with up show False by auto
qed

lemma take_Suc_eq_Cons: "take (Suc n) xs = y # ys \<longleftrightarrow> (\<exists>zs. xs = y # zs \<and> take n zs = ys)"
  by (cases xs) auto

lemma lower_char_plain: "of_char c < (65::nat) \<Longrightarrow> lower_char c = c"
  by (simp add: lower_char_def)

lemma startswith_rate_split:
  assumes "py_startswith (py_lower p) ''rate=''"
  shows "py_split1 CHR ''='' p = [take 4 p, drop 5 p]"
proof -
  from assms obtain a b c d e rest where p: "p = a # b # c # d # e # rest"
    and l: "lower_char a = CHR ''r''" "lower_char b = CHR ''a''" "lower_char c = CHR ''t''"
      "lower_char d = CHR ''e''" "lower_char e = CHR ''=''"
    by (auto simp: py_startswith_def py_lower_def take_Suc_eq_Cons map_eq_Cons_conv)
  have e: "e = CHR ''=''" using l(5) by (rule lower_char_sep)
  have n: "a \<noteq> CHR ''=''" "b \<noteq> CHR ''=''" "c \<noteq> CHR ''=''" "d \<noteq> CHR ''=''"
    using l(1-4) by (auto simp: lower_char_plain)
  show ?thesis by (simp add: py_split1_def p e n)
qed

lemma startswith_audio_split:
  assumes "py_startswith p ''audio/L''"
  shows "py_split1 CHR ''L'' p = [''audio/'', drop 7 p]"
proof -
  from assms obtain rest where p: "p = ''audio/L'' @ rest"
    by (auto simp: py_startswith_def take_Suc_eq_Cons)
  show ?thesis by (simp add: py_split1_def p)
qed


lemma parse_param_rate:
  assumes "rate_token t"
  shows "parse_param st t =
           (case py_int (rate_value t) of Inl e \<Rightarrow> Inr st | Inr r \<Rightarrow> Inr (st\<lparr>rate := r\<rparr>))"
proof -
  have s: "py_startswith (py_lower (py_strip t)) ''rate=''" using assms by (simp add: rate_token_def)
  have "try_rate (py_strip t) = py_int (rate_value t)"
    by (simp add: try_rate_def startswith_rate_split [OF s] py_index_def rate_value_def)
  then show ?thesis using s
    by (auto simp: parse_param_def Let_def split: sum.splits dest: py_int_error simp: caught_def)
qed

lemma parse_param_bits:
  assumes "bits_token t"
  shows "parse_param st t =
           (case py_int (bits_value t) of Inl e \<Rightarrow> Inr st
            | Inr b \<Rightarrow> Inr (st\<lparr>bits_per_sample := b\<rparr>))"
proof -
  have s: "py_startswith (py_strip t) ''audio/L''" and n: "\<not> py_startswith (py_lower (py_strip t)) ''rate=''"
    using assms by (simp_all add: bits_token_def rate_token_def)
  have "try_bits (py_strip t) = py_int (bits_value t)"
    by (simp add: try_bits_def startswith_audio_split [OF s] py_index_def bits_value_def)
  then show ?thesis using s n
    by (auto simp: parse_param_def Let_def split: sum.splits dest: py_int_error simp: caught_def)
qed

lemma parse_param_other:
  "\<not> rate_token t \<Longrightarrow> \<not> bits_token t \<Longrightarrow> parse_param st t = Inr st"
  by (simp add: parse_param_def Let_def rate_token_def bits_token_def)

lemma parse_param_total: "\<exists>st'. parse_param st t = Inr st'"
  by (cases "rate_token t"; cases "bits_token t")
     (auto simp: parse_param_rate parse_param_bits parse_param_other split: sum.splits)

lemma parse_params_total: "\<exists>st'. parse_params st ts = Inr st'"
proof (induction ts arbitrary: st)
  case Nil
  show ?case by simp
next
  case (Cons t ts)
  obtain st1 where "parse_param st t = Inr st1" using parse_param_total by blast
  then show ?case using Cons.IH [of st1] by simp
qed

lemma parse_params_keeps_rate:
  assumes "\<forall>t\<in>set ts. rate_token t \<longrightarrow> py_int (rate_value t) = Inl ValueError"
      and "parse_params st ts = Inr st'"
  shows "rate st' = rate st"
  using assms
proof (induction ts arbitrary: st)
  case Nil
  then show ?case by simp
next
  case (Cons t ts)
  obtain st1 where st1: "parse_param st t = Inr st1" using parse_param_total by blast
  have "rate st1 = rate st"
  proof (cases "rate_token t")
    case True
    with Cons.prems(1) have "py_int (rate_value t) = Inl ValueError" by simp
    with st1 True show ?thesis by (simp add: parse_param_rate)
  next
    case False
    show ?thesis
    proof (cases "bits_token t")
      case True
      with st1 show ?thesis by (auto simp: parse_param_bits split: sum.splits)
    next
      case b: False
      with False st1 show ?thesis by (simp add: parse_param_other)
    qed
  qed
  moreover have "rate st' = rate st1"
    using Cons.IH [of st1] Cons.prems st1 by simp
  ultimately show ?case by simp
qed

lemma parse_params_keeps_bits:
  assumes "\<forall>t\<in>set ts. bits_token t \<longrightarrow> py_int (bits_value t) = Inl ValueError"
      and "parse_params st ts = Inr st'"
  shows "bits_per_sample st' = bits_per_sample st"
  using assms
proof (induction ts arbitrary: st)
  case Nil
  then show ?case by simp
next
  case (Cons t ts)
  obtain st1 where st1: "parse_param st t = Inr st1" using parse_param_total by blast
  have "bits_per_sample st1 = bits_per_sample st"
  proof (cases "rate_token t")
    case True
    with st1 show ?thesis by (auto simp: parse_param_rate split: sum.splits)
  next
    case False
    show ?thesis
    proof (cases "bits_token t")
      case True
      with Cons.prems(1) have "py_int (bits_value t) = Inl ValueError" by simp
      with st1 True show ?thesis by (simp add: parse_param_bits)
    next
      case b: False
      with False st1 show ?thesis by (simp add: parse_param_other)
    qed
  qed
  moreover have "bits_per_sample st' = bits_per_sample st1"
    using Cons.IH [of st1] Cons.prems st1 by simp
  ultimately show ?case by simp
qed

subsection \<open>Decimal literals\<close>



















section \<open>The claims\<close>

text \<open>
  C1. Two chunks whose first part carries a non-empty payload (\<open>P1\<close>, \<open>P2\<close>) under a
  media type for which no extension is found: the accumulated output is the wrapped first
  payload followed by the wrapped second payload, an error of either wrapping being the
  error of the loop. When the loop returns, the output has two headers of 44 bytes, the
  data size of the first (offset 40) is the length of \<open>P1\<close> and the data size of the
  second (offset 40 after the first container) is the length of \<open>P2\<close>. A chunk whose
  payload is empty is passed over by the loop and is never wrapped, so the payloads of
  wrapped chunks are non-empty.
\<close>

theorem assemble_two_raw_chunks:
  assumes "carries c1 m1 P1" "P1 \<noteq> []" "ge m1 = None"
      and "carries c2 m2 P2" "P2 \<noteq> []" "ge m2 = None"
  shows "assemble ge [] [Inr c1, Inr c2] =
           (case convert_to_wav P1 m1 of
              Inl e \<Rightarrow> Inl e
            | Inr w1 \<Rightarrow> (case convert_to_wav P2 m2 of
                          Inl e \<Rightarrow> Inl e
                        | Inr w2 \<Rightarrow> Inr (w1 @ w2)))
         \<and> (\<forall>out. assemble ge [] [Inr c1, Inr c2] = Inr out \<longrightarrow>
               length out = (44 + length P1) + (44 + length P2)
               \<and> le_decode (field 40 4 out) = length P1
               \<and> le_decode (field 40 4 (drop (44 + length P1) out)) = length P2)"
proof -
  have eq: "assemble ge [] [Inr c1, Inr c2] =
           (case convert_to_wav P1 m1 of
              Inl e \<Rightarrow> Inl e
            | Inr w1 \<Rightarrow> (case convert_to_wav P2 m2 of
                          Inl e \<Rightarrow> Inl e
                        | Inr w2 \<Rightarrow> Inr (w1 @ w2)))"
    by (simp add: process_chunk_carries [where ge = ge, OF assms(1-3)]
        process_chunk_carries [where ge = ge, OF assms(4-6)]
        split: sum.splits)
  have wrap: "length w = 44 + length P \<and> le_decode (field 40 4 (w @ r)) = length P"
    if "convert_to_wav P m = Inr w" for P m w r
  proof -
    from that obtain ps where ps: "wav_encode P ps = Inr w"
      by (auto simp: convert_to_wav_def split: sum.splits)
    then have fits: "fits_header P ps" using wav_encode_not_fits [of P ps] by auto
    from wav_encode_fields(1) [OF fits] ps have w: "w = wav_header (length P) ps @ P" by simp
    show ?thesis using wav_encode_fields(2) [OF fits]
      by (simp add: w length_wav_header field_data_size)
  qed
  show ?thesis
  proof (intro conjI allI impI)
    show "assemble ge [] [Inr c1, Inr c2] =
           (case convert_to_wav P1 m1 of
              Inl e \<Rightarrow> Inl e
            | Inr w1 \<Rightarrow> (case convert_to_wav P2 m2 of
                          Inl e \<Rightarrow> Inl e
                        | Inr w2 \<Rightarrow> Inr (w1 @ w2)))" by (rule eq)
  next
    fix out assume out: "assemble ge [] [Inr c1, Inr c2] = Inr out"
    with eq obtain w1 w2 where w: "convert_to_wav P1 m1 = Inr w1" "convert_to_wav P2 m2 = Inr w2"
      "out = w1 @ w2" by (auto split: sum.splits)
    from wrap [OF w(1), of w2] wrap [OF w(2), of "[]"]
    show "length out = (44 + length P1) + (44 + length P2)" by (simp add: w(3))
    from wrap [OF w(1), of w2] show "le_decode (field 40 4 out) = length P1" by (simp add: w(3))
    from wrap [OF w(1), of w2] wrap [OF w(2), of "[]"]
    show "le_decode (field 40 4 (drop (44 + length P1) out)) = length P2" by (simp add: w(3))
  qed
qed

theorem assemble_two_raw_chunks_witness:
  "carries (chunk_of [audio_part ''audio/L16;rate=24000'' [1, 2]]) ''audio/L16;rate=24000'' [1, 2]
   \<and> carries (chunk_of [audio_part ''audio/L24;rate=48000'' [3]]) ''audio/L24;rate=48000'' [3]
   \<and> assemble (\<lambda>m. None) []
        [Inr (chunk_of [audio_part ''audio/L16;rate=24000'' [1, 2]]),
         Inr (chunk_of [audio_part ''audio/L24;rate=48000'' [3]])]
      = Inr ([0x52, 0x49, 0x46, 0x46,  38, 0, 0, 0,  0x57, 0x41, 0x56, 0x45,
              0x66, 0x6D, 0x74, 0x20,  16, 0, 0, 0,  1, 0,  1, 0,
              0xC0, 0x5D, 0, 0,  0x80, 0xBB, 0, 0,  2, 0,  16, 0,
              0x64, 0x61, 0x74, 0x61,  2, 0, 0, 0,  1, 2,
              0x52, 0x49, 0x46, 0x46,  37, 0, 0, 0,  0x57, 0x41, 0x56, 0x45,
              0x66, 0x6D, 0x74, 0x20,  16, 0, 0, 0,  1, 0,  1, 0,
              0x80, 0xBB, 0, 0,  0x80, 0x32, 0x02, 0,  3, 0,  24, 0,
              0x64, 0x61, 0x74, 0x61,  1, 0, 0, 0,  3])"
proof -
  have c1: "carries (chunk_of [audio_part ''audio/L16;rate=24000'' [1, 2]])
              ''audio/L16;rate=24000'' [1, 2]"
    by (simp add: carries_def first_part_def chunk_of_def audio_part_def)
  have c2: "carries (chunk_of [audio_part ''audio/L24;rate=48000'' [3]])
              ''audio/L24;rate=48000'' [3]"
    by (simp add: carries_def first_part_def chunk_of_def audio_part_def)
  have p1: "parse_audio_mime_type ''audio/L16;rate=24000'' = Inr \<lparr>bits_per_sample = 16, rate = 24000\<rparr>"
    by code_simp
  have p2: "parse_audio_mime_type ''audio/L24;rate=48000'' = Inr \<lparr>bits_per_sample = 24, rate = 48000\<rparr>"
    by code_simp
  have w1: "convert_to_wav [1, 2] ''audio/L16;rate=24000'' =
      Inr [0x52, 0x49, 0x46, 0x46,  38, 0, 0, 0,  0x57, 0x41, 0x56, 0x45,
              0x66, 0x6D, 0x74, 0x20,  16, 0, 0, 0,  1, 0,  1, 0,
              0xC0, 0x5D, 0, 0,  0x80, 0xBB, 0, 0,  2, 0,  16, 0,
              0x64, 0x61, 0x74, 0x61,  2, 0, 0, 0,  1, 2]"
    by (simp add: convert_to_wav_def p1 wav_encode_def pack_I_def pack_H_def pack_uint_def
        tag_def eval_nat_numeral)
  have w2: "convert_to_wav [3] ''audio/L24;rate=48000'' =
      Inr [0x52, 0x49, 0x46, 0x46,  37, 0, 0, 0,  0x57, 0x41, 0x56, 0x45,
              0x66, 0x6D, 0x74, 0x20,  16, 0, 0, 0,  1, 0,  1, 0,
              0x80, 0xBB, 0, 0,  0x80, 0x32, 0x02, 0,  3, 0,  24, 0,
              0x64, 0x61, 0x74, 0x61,  1, 0, 0, 0,  3]"
    by (simp add: convert_to_wav_def p2 wav_encode_def pack_I_def pack_H_def pack_uint_def
        tag_def eval_nat_numeral)
  have "assemble (\<lambda>m. None) []
        [Inr (chunk_of [audio_part ''audio/L16;rate=24000'' [1, 2]]),
         Inr (chunk_of [audio_part ''audio/L24;rate=48000'' [3]])] =
           (case convert_to_wav [1, 2] ''audio/L16;rate=24000'' of
              Inl e \<Rightarrow> Inl e
            | Inr w1 \<Rightarrow> (case convert_to_wav [3] ''audio/L24;rate=48000'' of
                          Inl e \<Rightarrow> Inl e
                        | Inr w2 \<Rightarrow> Inr (w1 @ w2)))"
    using assemble_two_raw_chunks [where ge = "\<lambda>m. None", OF c1 _ _ c2] by simp
  then show ?thesis using c1 c2 by (simp only: w1 w2 sum.case append.simps simp_thms)
qed


text \<open>
  C3. The scenario of the descriptor \<open>audio/L24;rate=48000\<close>: the parser returns 24
  bits and 48000 Hz, and the encoding of 100 zero bytes is the 44 header bytes written out
  below (every number least significant byte first) followed by the payload.
\<close>

theorem scenario_L24_48000:
  "parse_audio_mime_type ''audio/L24;rate=48000'' = Inr \<lparr>bits_per_sample = 24, rate = 48000\<rparr>
   \<and> wav_encode (replicate 100 0) \<lparr>bits_per_sample = 24, rate = 48000\<rparr> =
     Inr ([0x52, 0x49, 0x46, 0x46,  0x88, 0, 0, 0,  0x57, 0x41, 0x56, 0x45,
           0x66, 0x6D, 0x74, 0x20,  0x10, 0, 0, 0,  1, 0,  1, 0,
           0x80, 0xBB, 0, 0,  0x80, 0x32, 0x02, 0,  3, 0,  0x18, 0,
           0x64, 0x61, 0x74, 0x61,  0x64, 0, 0, 0] @ replicate 100 0)"
proof -
  have p: "parse_audio_mime_type ''audio/L24;rate=48000'' = Inr \<lparr>bits_per_sample = 24, rate = 48000\<rparr>"
    by code_simp
  have e: "wav_encode (replicate 100 0) \<lparr>bits_per_sample = 24, rate = 48000\<rparr> =
     Inr ([0x52, 0x49, 0x46, 0x46,  0x88, 0, 0, 0,  0x57, 0x41, 0x56, 0x45,
           0x66, 0x6D, 0x74, 0x20,  0x10, 0, 0, 0,  1, 0,  1, 0,
           0x80, 0xBB, 0, 0,  0x80, 0x32, 0x02, 0,  3, 0,  0x18, 0,
           0x64, 0x61, 0x74, 0x61,  0x64, 0, 0, 0] @ replicate 100 0)"
    by (simp add: wav_encode_def pack_I_def pack_H_def pack_uint_def tag_def eval_nat_numeral)
  show ?thesis using p e by simp
qed

text \<open>
  C4, as amended. When every value of the header lies in the range of its own field
  (\<open>fits_header\<close>: 16 bits for the block alignment and the bits per sample, 32 bits for
  the rest), the encoder returns, the four bytes at offset 40 decode to the length of the
  payload, the four bytes at offset 4 to 36 plus that length, and the output has 44 bytes
  more than the payload. The claim as stated asks only for the 32-bit range and fails:
  65544 bits per sample is positive, divisible by 8 and below \<open>2 ^ 32\<close>, and the 16-bit
  field of the header refuses it.
\<close>

theorem wav_encode_size_fields:
  assumes "fits_header payload ps"
  shows "\<exists>out. wav_encode payload ps = Inr out
           \<and> le_decode (field 40 4 out) = length payload
           \<and> le_decode (field 4 4 out) = 36 + length payload
           \<and> length out = 44 + length payload"
  using wav_encode_fields [OF assms] by (simp add: length_wav_header)

theorem wav_encode_size_fields_witness:
  "fits_header [1, 2, 3] \<lparr>bits_per_sample = 16, rate = 24000\<rparr>
   \<and> (\<exists>out. wav_encode [1, 2, 3] \<lparr>bits_per_sample = 16, rate = 24000\<rparr> = Inr out
           \<and> le_decode (field 40 4 out) = 3 \<and> le_decode (field 4 4 out) = 39
           \<and> length out = 47)"
proof -
  have h: "fits_header [1, 2, 3] \<lparr>bits_per_sample = 16, rate = 24000\<rparr>"
    by (simp add: fits_header_def)
  show ?thesis using h wav_encode_size_fields [OF h] by (simp add: numeral_3_eq_3)
qed

theorem wav_encode_32bit_counterexample:
  "(0::int) < 65544 \<and> (65544::int) mod 8 = 0 \<and> (0::int) < 1
   \<and> (65544::int) < 2 ^ 32 \<and> (1::int) < 2 ^ 32 \<and> (1::int) * (65544 div 8) < 2 ^ 32
   \<and> (65544::int) div 8 < 2 ^ 32 \<and> 36 + int (length ([] :: byte list)) < 2 ^ 32
   \<and> wav_encode [] \<lparr>bits_per_sample = 65544, rate = 1\<rparr> = Inl StructError"
  by (simp add: wav_encode_def pack_I_def pack_H_def pack_uint_def)

text \<open>
  C5. The parser returns on every string: no error is a possible result. When no rate
  token of the descriptor has a value that \<open>int\<close> accepts, the rate is the default 24000;
  when no \<open>audio/L\<close> token has a suffix that \<open>int\<close> accepts, the bits per sample are the
  default 16. The empty string and the descriptor \<open>audio/Lxx;rate=\<close> are instances.
\<close>

theorem parse_never_raises:
  "\<exists>ps. parse_audio_mime_type m = Inr ps
     \<and> ((\<forall>t\<in>set (py_split CHR '';'' m). rate_token t \<longrightarrow> py_int (rate_value t) = Inl ValueError)
          \<longrightarrow> rate ps = 24000)
     \<and> ((\<forall>t\<in>set (py_split CHR '';'' m). bits_token t \<longrightarrow> py_int (bits_value t) = Inl ValueError)
          \<longrightarrow> bits_per_sample ps = 16)"
proof -
  obtain ps where ps: "parse_params \<lparr>bits_per_sample = 16, rate = 24000\<rparr> (py_split CHR '';'' m) = Inr ps"
    using parse_params_total by blast
  show ?thesis
    using ps parse_params_keeps_rate [OF _ ps] parse_params_keeps_bits [OF _ ps]
    by (auto simp: parse_audio_mime_type_def)
qed

theorem parse_never_raises_witness:
  "py_int (bits_value ''audio/Lxx'') = Inl ValueError
   \<and> py_int (rate_value ''rate='') = Inl ValueError
   \<and> parse_audio_mime_type ''audio/Lxx;rate='' = Inr \<lparr>bits_per_sample = 16, rate = 24000\<rparr>
   \<and> parse_audio_mime_type '''' = Inr \<lparr>bits_per_sample = 16, rate = 24000\<rparr>"
proof -
  have sp: "py_split CHR '';'' ''audio/Lxx;rate='' = [''audio/Lxx'', ''rate='']" by simp
  have b: "py_int (bits_value ''audio/Lxx'') = Inl ValueError" by code_simp
  have r: "py_int (rate_value ''rate='') = Inl ValueError" by code_simp
  have nb: "\<not> bits_token ''rate=''" by code_simp
  have nr: "\<not> rate_token ''audio/Lxx''" by code_simp
  have e: "\<not> rate_token []" "\<not> bits_token []" by code_simp+
  have "\<exists>ps. parse_audio_mime_type ''audio/Lxx;rate='' = Inr ps
          \<and> rate ps = 24000 \<and> bits_per_sample ps = 16"
    using parse_never_raises [of "''audio/Lxx;rate=''"] b r nb nr unfolding sp by simp
  moreover have "\<exists>ps. parse_audio_mime_type '''' = Inr ps
          \<and> rate ps = 24000 \<and> bits_per_sample ps = 16"
    using parse_never_raises [of "''''"] e by simp
  ultimately show ?thesis using b r by auto
qed

text \<open>
  C6, as amended. The encoder returns exactly when every value of the header lies in the
  range of its field, and raises \<open>struct.error\<close> otherwise. The claim as stated fails:
  the parser produces the rate -100 from \<open>audio/L16;rate=-100\<close>, and the encoder
  raises on it.
\<close>

theorem wav_encode_returns_iff_fits:
  "(fits_header payload ps \<longrightarrow> (\<exists>out. wav_encode payload ps = Inr out))
   \<and> (\<not> fits_header payload ps \<longrightarrow> wav_encode payload ps = Inl StructError)"
  by (simp add: wav_encode_fits wav_encode_not_fits)

theorem wav_encode_returns_iff_fits_witness:
  "fits_header [7] \<lparr>bits_per_sample = 16, rate = 24000\<rparr>
   \<and> (\<exists>out. wav_encode [7] \<lparr>bits_per_sample = 16, rate = 24000\<rparr> = Inr out)
   \<and> \<not> fits_header [7] \<lparr>bits_per_sample = 16, rate = - 100\<rparr>
   \<and> wav_encode [7] \<lparr>bits_per_sample = 16, rate = - 100\<rparr> = Inl StructError"
proof -
  have h1: "fits_header [7] \<lparr>bits_per_sample = 16, rate = 24000\<rparr>"
    by (simp add: fits_header_def)
  have h2: "\<not> fits_header [7] \<lparr>bits_per_sample = 16, rate = - 100\<rparr>"
    by (simp add: fits_header_def)
  show ?thesis
    using h1 h2 wav_encode_returns_iff_fits [of "[7]" "\<lparr>bits_per_sample = 16, rate = 24000\<rparr>"]
      wav_encode_returns_iff_fits [of "[7]" "\<lparr>bits_per_sample = 16, rate = - 100\<rparr>"]
    by simp
qed

theorem convert_to_wav_negative_rate_counterexample:
  "parse_audio_mime_type ''audio/L16;rate=-100'' = Inr \<lparr>bits_per_sample = 16, rate = - 100\<rparr>
   \<and> wav_encode [0, 0] \<lparr>bits_per_sample = 16, rate = - 100\<rparr> = Inl StructError
   \<and> convert_to_wav [0, 0] ''audio/L16;rate=-100'' = Inl StructError"
proof -
  have p: "parse_audio_mime_type ''audio/L16;rate=-100'' = Inr \<lparr>bits_per_sample = 16, rate = - 100\<rparr>"
    by code_simp
  have e: "wav_encode [0, 0] \<lparr>bits_per_sample = 16, rate = - 100\<rparr> = Inl StructError"
    by (simp add: wav_encode_def pack_I_def pack_H_def pack_uint_def)
  show ?thesis using p e by (simp add: convert_to_wav_def)
qed






text \<open>
  C9. With the API key present, when the stream raises \<open>e\<close> after chunks that were
  consumed without error, \<open>generate_podcast_audio\<close> raises \<open>e\<close> and the temporary
  file is gone from the file system: no file name is returned.
\<close>

theorem upstream_failure_releases_file:
  assumes "api_key \<noteq> None" "api_key \<noteq> Some []"
      and "assemble ge [] (map Inr cs) = Inr acc"
  shows "generate_podcast_audio ge api_key tmp (map Inr cs @ Inl e # rest) fs
           = (Inl e, fs(tmp := None))"
  using assms by (auto simp: generate_podcast_audio_def assemble_append)

theorem upstream_failure_releases_file_witness:
  "Some ''key'' \<noteq> None \<and> Some ''key'' \<noteq> Some []
   \<and> assemble (\<lambda>m. Some ''.wav'') [] (map Inr [chunk_of [audio_part ''audio/wav'' [1]]])
       = Inr [1]
   \<and> generate_podcast_audio (\<lambda>m. Some ''.wav'') (Some ''key'') ''t.wav''
        (map Inr [chunk_of [audio_part ''audio/wav'' [1]]] @ Inl (APIError 503) # [])
        (Map.empty(''old.wav'' \<mapsto> [9]))
      = (Inl (APIError 503), (Map.empty(''old.wav'' \<mapsto> [9]))(''t.wav'' := None))"
proof -
  have h: "assemble (\<lambda>m. Some ''.wav'') [] (map Inr [chunk_of [audio_part ''audio/wav'' [1]]])
       = Inr [1]"
    by (simp add: process_chunk_def py_index_def chunk_of_def audio_part_def)
  show ?thesis
    using h upstream_failure_releases_file [of "Some ''key''" "\<lambda>m. Some ''.wav''"
        "[chunk_of [audio_part ''audio/wav'' [1]]]" "[1]" "''t.wav''" "APIError 503" "[]"
        "Map.empty(''old.wav'' \<mapsto> [9])"]
    by simp
qed

text \<open>
  C10. The step of the loop on a chunk depends on the first part of the first candidate
  only: the later parts (and candidates) can be dropped without changing the result, and
  when the first part has no audio the accumulator is unchanged whatever the later parts
  carry.
\<close>

theorem only_first_part_inspected:
  "process_chunk ge acc
      \<lparr>candidates = Some (\<lparr>content = Some \<lparr>parts = Some (p # ps)\<rparr>\<rparr> # cs)\<rparr>
     = process_chunk ge acc (chunk_of [p])
   \<and> (no_audio p \<longrightarrow>
        process_chunk ge acc
          \<lparr>candidates = Some (\<lparr>content = Some \<lparr>parts = Some (p # ps)\<rparr>\<rparr> # cs)\<rparr> = Inr acc)"
  by (auto simp: process_chunk_def py_index_def chunk_of_def no_audio_def split: option.splits)

theorem only_first_part_inspected_witness:
  "no_audio \<lparr>inline_data = None\<rparr>
   \<and> \<not> no_audio (audio_part ''audio/L16;rate=24000'' [1, 2, 3])
   \<and> process_chunk (\<lambda>m. None) [9]
        \<lparr>candidates = Some [\<lparr>content = Some \<lparr>parts =
           Some [\<lparr>inline_data = None\<rparr>, audio_part ''audio/L16;rate=24000'' [1, 2, 3]]\<rparr>\<rparr>]\<rparr>
      = Inr [9]"
proof -
  have n: "no_audio \<lparr>inline_data = None\<rparr>" by (simp add: no_audio_def)
  have a: "\<not> no_audio (audio_part ''audio/L16;rate=24000'' [1, 2, 3])"
    by (simp add: no_audio_def audio_part_def)
  show ?thesis
    using n a only_first_part_inspected [of "\<lambda>m. None" "[9]" "\<lparr>inline_data = None\<rparr>"
        "[audio_part ''audio/L16;rate=24000'' [1, 2, 3]]" "[]"]
    by blast
qed

end
